theory Spec2Isabelle
  imports Main "HOL-Library.Word"
begin

section \<open>Machine types and caller buffers\<close>

text \<open>
  Fixed-width fields of the source are words: \<open>uint8_t\<close> and \<open>int8_t\<close> are 8-bit words
  (an \<open>int8_t\<close> is read with \<open>sint\<close>), \<open>uint16_t\<close> and \<open>uint32_t\<close> are 16- and 32-bit
  words. \<open>size_t\<close> counts are \<open>nat\<close> and \<open>int\<close> results are \<open>int\<close>: the drivers only
  compare them, take their minimum, or increment a counter below a bound, so no
  operation on them can wrap.
\<close>

type_synonym u8 = "8 word"
type_synonym i8 = "8 word"
type_synonym u16 = "16 word"
type_synonym u32 = "32 word"

text \<open>
  A \<open>uint8_t*\<close> handed to \<open>leer\<close> is the memory from that address on: \<open>buffer i\<close> is
  the byte \<open>buffer[i]\<close>. A bulk read of a provider stores the bytes it delivers from
  index 0 on.
\<close>

type_synonym buf = "nat \<Rightarrow> u8"

definition store :: "buf \<Rightarrow> u8 list \<Rightarrow> buf" where
  "store buffer bytes = (\<lambda>i. if i < length bytes then bytes ! i else buffer i)"

section \<open>NrfRadio.h\<close>

text \<open>
  The RF24 object is an external library. The driver sees it only through the calls it
  makes and the values those calls return, so the provider is modelled by the history
  of calls it has received (oldest first) and by its answers, which are arbitrary
  functions of that history: an answer is read at the history that ends with the call
  it answers.
\<close>

datatype rf24_datarate_e = RF24_1MBPS | RF24_2MBPS | RF24_250KBPS

text \<open>
  The power levels of the enumeration, by their integer values: 0 (MIN), 1 (LOW),
  2 (HIGH), 3 (MAX), as the comment of \<open>NrfConfig::paLevel\<close> lists them.
\<close>

definition pa_enumerated :: "int \<Rightarrow> bool" where
  "pa_enumerated v = (v = 0 \<or> v = 1 \<or> v = 2 \<or> v = 3)"

text \<open>
  The calls of the driver, with the arguments as the provider receives them. The
  library declares the lengths of \<open>write\<close> and \<open>read\<close> and the level of \<open>setPALevel\<close>
  as \<open>uint8_t\<close>, so the driver's \<open>size_t\<close> length and its cast power level arrive
  narrowed to 8 bits.
\<close>

datatype rf24_call =
    RfBegin
  | SetChannel u8
  | SetDataRate rf24_datarate_e
  | SetPALevel u8
  | EnableDynamicPayloads
  | OpenWritingPipe "u8 list"
  | OpenReadingPipe u8 "u8 list"
  | StartListening
  | StopListening
  | RfWrite "u8 list" u8
  | RfAvailable
  | GetDynamicPayloadSize
  | RfRead u8
  | PowerDown
  | PowerUp

record rf24_env =
  rf_begin_ans :: "rf24_call list \<Rightarrow> bool"
  rf_write_ans :: "rf24_call list \<Rightarrow> bool"
  rf_available_ans :: "rf24_call list \<Rightarrow> bool"
  rf_payloadSize_ans :: "rf24_call list \<Rightarrow> nat"
  rf_read_ans :: "rf24_call list \<Rightarrow> u8 list"

record NrfConfig =
  cePin :: u8
  csnPin :: u8
  writeAddress :: "u8 list"
  readAddress :: "u8 list"
  channel :: u8
  dataRate :: u16
  paLevel :: i8

text \<open>
  Modelled from the spec: listening mode, the receive-ready state of the external
  RF24 object. It is read off the calls the object received: \<open>startListening\<close> enters
  it, \<open>stopListening\<close> leaves it, no other call of the driver changes it. The first
  argument is the mode before the calls.
\<close>

fun rf_listening :: "bool \<Rightarrow> rf24_call list \<Rightarrow> bool" where
  "rf_listening m [] = m"
| "rf_listening m (StartListening # cs) = rf_listening True cs"
| "rf_listening m (StopListening # cs) = rf_listening False cs"
| "rf_listening m (c # cs) = rf_listening m cs"

text \<open>
  The data rates and the power levels the provider was given, in the order of the
  calls that set them.
\<close>

fun rate_calls :: "rf24_call list \<Rightarrow> rf24_datarate_e list" where
  "rate_calls [] = []"
| "rate_calls (SetDataRate r # cs) = r # rate_calls cs"
| "rate_calls (c # cs) = rate_calls cs"

fun pa_calls :: "rf24_call list \<Rightarrow> u8 list" where
  "pa_calls [] = []"
| "pa_calls (SetPALevel v # cs) = v # pa_calls cs"
| "pa_calls (c # cs) = pa_calls cs"

text \<open>
  \<open>NrfRadio::iniciar\<close>: the history \<open>h\<close> is the state of \<open>_radio\<close>. The cast
  \<open>(rf24_pa_dbm_e)_config.paLevel\<close> keeps the signed value of the \<open>int8_t\<close> selector,
  and the \<open>uint8_t\<close> level parameter of \<open>setPALevel\<close> takes that value modulo 256: -1
  arrives as 255.
\<close>

definition nrf_iniciar :: "rf24_env \<Rightarrow> NrfConfig \<Rightarrow> rf24_call list \<Rightarrow> bool \<times> rf24_call list" where
  "nrf_iniciar R cfg h =
    (let h1 = h @ [RfBegin] in
     if \<not> rf_begin_ans R h1 then (False, h1)
     else
       let h2 = h1 @ [SetChannel (channel cfg)];
           h3 = (if dataRate cfg = 250 then h2 @ [SetDataRate RF24_250KBPS]
                 else if dataRate cfg = 2 then h2 @ [SetDataRate RF24_2MBPS]
                 else h2 @ [SetDataRate RF24_1MBPS]);
           h4 = h3 @ [SetPALevel (word_of_int (sint (paLevel cfg)))];
           h5 = h4 @ [EnableDynamicPayloads];
           h6 = h5 @ [OpenWritingPipe (writeAddress cfg)];
           h7 = h6 @ [OpenReadingPipe 1 (readAddress cfg)];
           h8 = h7 @ [StartListening]
       in (True, h8))"

text \<open>
  \<open>NrfRadio::enviar\<close>: \<open>buffer\<close> holds the bytes at the pointer. \<open>longitud\<close> is a
  \<open>size_t\<close> and the length parameter of \<open>write\<close> a \<open>uint8_t\<close>: the provider receives
  \<open>longitud\<close> modulo 256.
\<close>

definition nrf_enviar :: "rf24_env \<Rightarrow> u8 list \<Rightarrow> nat \<Rightarrow> rf24_call list \<Rightarrow> bool \<times> rf24_call list" where
  "nrf_enviar R buffer longitud h =
    (let h1 = h @ [StopListening];
         h2 = h1 @ [RfWrite buffer (word_of_nat longitud)];
         ok = rf_write_ans R h2;
         h3 = h2 @ [StartListening]
     in (ok, h3))"

text \<open>\<open>NrfRadio::hayDatosDisponibles\<close>.\<close>

definition nrf_hayDatosDisponibles :: "rf24_env \<Rightarrow> rf24_call list \<Rightarrow> int \<times> rf24_call list" where
  "nrf_hayDatosDisponibles R h =
    (let h1 = h @ [RfAvailable] in
     if rf_available_ans R h1
     then (let h2 = h1 @ [GetDynamicPayloadSize] in (int (rf_payloadSize_ans R h2), h2))
     else (0, h1))"

text \<open>
  \<open>NrfRadio::leer\<close>: returns the count, the caller's buffer afterwards and the history.
  Arduino's \<open>min(a, b)\<close> is the smaller of the two. The provider's \<open>read\<close> takes the
  length as \<open>uint8_t\<close>; the count returned is the \<open>size_t\<close> \<open>bytesALeer\<close> itself.
\<close>

definition nrf_leer :: "rf24_env \<Rightarrow> buf \<Rightarrow> nat \<Rightarrow> rf24_call list \<Rightarrow> nat \<times> buf \<times> rf24_call list" where
  "nrf_leer R buffer maxLongitud h =
    (let h1 = h @ [GetDynamicPayloadSize];
         payloadSize = rf_payloadSize_ans R h1
     in if payloadSize = 0 then (0, buffer, h1)
        else
          let bytesALeer = min payloadSize maxLongitud;
              h2 = h1 @ [RfRead (word_of_nat bytesALeer)]
          in (bytesALeer, store buffer (rf_read_ans R h2), h2))"

text \<open>\<open>NrfRadio::dormir\<close> and \<open>NrfRadio::despertar\<close> (the 5 ms pause is not modelled).\<close>

definition nrf_dormir :: "rf24_call list \<Rightarrow> bool \<times> rf24_call list" where
  "nrf_dormir h = (True, h @ [PowerDown])"

definition nrf_despertar :: "rf24_call list \<Rightarrow> bool \<times> rf24_call list" where
  "nrf_despertar h = (True, h @ [PowerUp])"

section \<open>LoraRadio.h\<close>

text \<open>
  The global \<open>LoRa\<close> object of the external library, modelled like the RF24 object: the
  history of the calls it received and its answers at each history. \<open>parsePacket\<close>,
  \<open>available\<close> and \<open>read\<close> return \<open>int\<close>.
\<close>

datatype lora_call = ParsePacket | LoRaAvailable | LoRaRead

record lora_env =
  lora_parsePacket_ans :: "lora_call list \<Rightarrow> int"
  lora_available_ans :: "lora_call list \<Rightarrow> int"
  lora_read_ans :: "lora_call list \<Rightarrow> int"


text \<open>
  \<open>LoraRadio::leer\<close>. The loop tests \<open>LoRa.available()\<close> first (any non-zero value
  counts as true), then \<open>bytesLeidos < maxLongitud\<close>; the body stores the byte read,
  narrowed to \<open>uint8_t\<close>, and increments the counter.
\<close>

function lora_leer_loop ::
  "lora_env \<Rightarrow> buf \<Rightarrow> nat \<Rightarrow> nat \<Rightarrow> lora_call list \<Rightarrow> nat \<times> buf \<times> lora_call list" where
  "lora_leer_loop L buffer maxLongitud bytesLeidos h =
    (let h1 = h @ [LoRaAvailable] in
     if lora_available_ans L h1 \<noteq> 0 \<and> bytesLeidos < maxLongitud
     then
       let h2 = h1 @ [LoRaRead];
           buffer1 = buffer(bytesLeidos := word_of_int (lora_read_ans L h2))
       in lora_leer_loop L buffer1 maxLongitud (bytesLeidos + 1) h2
     else (bytesLeidos, buffer, h1))"
  by pat_completeness auto
termination
  by (relation "measure (\<lambda>(L, buffer, maxLongitud, bytesLeidos, h). maxLongitud - bytesLeidos)") auto

definition lora_leer :: "lora_env \<Rightarrow> buf \<Rightarrow> nat \<Rightarrow> lora_call list \<Rightarrow> nat \<times> buf \<times> lora_call list" where
  "lora_leer L buffer maxLongitud h = lora_leer_loop L buffer maxLongitud 0 h"


section \<open>Clock and digital I/O\<close>

text \<open>
  Modelled from the spec: the Clock/Digital-I/O Service (the Arduino core, external to
  the repository), a monotonic millisecond clock with pin read, pin write, pin mode
  and a delay. Its state is the time since boot in milliseconds, the level each input
  pin shows at each millisecond (the signal the outside world applies), and the log of
  the pin configurations and pin writes made.
  \<open>millis()\<close> is the time as a 32-bit counter, which wraps; \<open>delay(ms)\<close> lets \<open>ms\<close>
  milliseconds pass; the other calls take no time. \<open>LOW\<close> is 0 and \<open>HIGH\<close> is 1.
\<close>

datatype pin_mode = INPUT | OUTPUT

datatype io_call = PinMode u8 pin_mode | DigitalWrite u8 u8

record arduino =
  now_ms :: nat
  pin_in :: "u8 \<Rightarrow> nat \<Rightarrow> int"
  io_log :: "io_call list"

definition LOW :: u8 where
  "LOW = 0"

definition HIGH :: u8 where
  "HIGH = 1"

definition millis :: "arduino \<Rightarrow> u32" where
  "millis w = word_of_nat (now_ms w)"

definition delay :: "nat \<Rightarrow> arduino \<Rightarrow> arduino" where
  "delay ms w = w\<lparr>now_ms := now_ms w + ms\<rparr>"

definition digitalRead :: "u8 \<Rightarrow> arduino \<Rightarrow> int" where
  "digitalRead pin w = pin_in w pin (now_ms w)"

definition digitalWrite :: "u8 \<Rightarrow> u8 \<Rightarrow> arduino \<Rightarrow> arduino" where
  "digitalWrite pin val w = w\<lparr>io_log := io_log w @ [DigitalWrite pin val]\<rparr>"

definition pinMode :: "u8 \<Rightarrow> pin_mode \<Rightarrow> arduino \<Rightarrow> arduino" where
  "pinMode pin mode w = w\<lparr>io_log := io_log w @ [PinMode pin mode]\<rparr>"

section \<open>XbeeRadio.h\<close>

text \<open>
  The \<open>Stream\<close> the driver holds a reference to is external: again a history of calls
  and the answers at each history. \<open>write\<close> answers the number of bytes it accepted,
  \<open>available\<close> an \<open>int\<close>, and \<open>readBytes\<close> the bytes it stores at the buffer; the count
  \<open>readBytes\<close> returns is the number of bytes it stored.
\<close>

datatype stream_call = StreamWrite "u8 list" nat | StreamFlush | StreamAvailable | StreamReadBytes nat

record stream_env =
  st_write_ans :: "stream_call list \<Rightarrow> nat"
  st_available_ans :: "stream_call list \<Rightarrow> int"
  st_readBytes_ans :: "stream_call list \<Rightarrow> u8 list"

record XBeeRadio =
  baudios :: int
  pinSleepRq :: i8
  pinOnSleep :: i8

text \<open>
  \<open>XBeeRadio::_esperarEstadoPin\<close>: \<open>tiempoInicio\<close> is read once, then the loop runs.
  The subtraction is on \<open>uint32_t\<close> and wraps; \<open>timeout_ms\<close> is widened for the
  comparison; \<open>digitalRead\<close> returns an \<open>int\<close>, compared with the widened
  \<open>estadoDeseado\<close>.
\<close>

function esperarEstadoPin_loop :: "u8 \<Rightarrow> u8 \<Rightarrow> u16 \<Rightarrow> u32 \<Rightarrow> arduino \<Rightarrow> bool \<times> arduino" where
  "esperarEstadoPin_loop pin estadoDeseado timeout_ms tiempoInicio w =
    (if millis w - tiempoInicio < ucast timeout_ms
     then (if digitalRead pin w = uint estadoDeseado then (True, w)
           else esperarEstadoPin_loop pin estadoDeseado timeout_ms tiempoInicio (delay 1 w))
     else (False, w))"
  by pat_completeness auto
termination
proof (relation "measure (\<lambda>(pin, estadoDeseado, timeout_ms, tiempoInicio, w).
            unat (ucast timeout_ms :: u32) - unat (millis w - tiempoInicio))")
  show "wf (measure (\<lambda>(pin, estadoDeseado, timeout_ms, tiempoInicio, w).
            unat (ucast timeout_ms :: u32) - unat (millis w - tiempoInicio)))"
    by simp
next
  fix pin estadoDeseado :: u8 and timeout_ms :: u16 and tiempoInicio :: u32 and w :: arduino
  assume lt: "millis w - tiempoInicio < ucast timeout_ms"
  let ?e = "millis w - tiempoInicio"
  have below: "unat ?e < unat (ucast timeout_ms :: u32)"
    using lt by (simp add: word_less_nat_alt)
  moreover have "unat (ucast timeout_ms :: u32) < 2 ^ 32"
    using unsigned_less [of "ucast timeout_ms :: u32", where ?'a = nat] by simp
  ultimately have small: "unat ?e + 1 < 2 ^ 32" by simp
  have "unat (?e + 1) = (unat ?e + unat (1 :: u32)) mod 2 ^ LENGTH(32)"
    by (rule unat_word_ariths(1))
  also have "\<dots> = Suc (unat ?e)"
    using small by simp
  finally have step: "unat (?e + 1) = Suc (unat ?e)" .
  have "millis (delay 1 w) - tiempoInicio = ?e + 1"
    by (simp add: millis_def delay_def)
  then have "unat (millis (delay 1 w) - tiempoInicio) = Suc (unat ?e)"
    using step by (simp only:)
  then show "((pin, estadoDeseado, timeout_ms, tiempoInicio, delay 1 w),
              (pin, estadoDeseado, timeout_ms, tiempoInicio, w))
        \<in> measure (\<lambda>(pin, estadoDeseado, timeout_ms, tiempoInicio, w).
            unat (ucast timeout_ms :: u32) - unat (millis w - tiempoInicio))"
    using below by simp
qed

definition esperarEstadoPin :: "u8 \<Rightarrow> u8 \<Rightarrow> u16 \<Rightarrow> arduino \<Rightarrow> bool \<times> arduino" where
  "esperarEstadoPin pin estadoDeseado timeout_ms w =
    (let tiempoInicio = millis w
     in esperarEstadoPin_loop pin estadoDeseado timeout_ms tiempoInicio w)"

text \<open>\<open>XBeeRadio::dormir\<close> and \<open>XBeeRadio::despertar\<close>.\<close>

definition xbee_dormir :: "XBeeRadio \<Rightarrow> arduino \<Rightarrow> bool \<times> arduino" where
  "xbee_dormir X w =
    (if sint (pinSleepRq X) < 0 then (True, w)
     else
       let w1 = digitalWrite (pinSleepRq X) LOW w
       in if sint (pinOnSleep X) < 0 then (True, w1)
          else esperarEstadoPin (pinOnSleep X) LOW 200 w1)"

definition xbee_despertar :: "XBeeRadio \<Rightarrow> arduino \<Rightarrow> bool \<times> arduino" where
  "xbee_despertar X w =
    (if sint (pinSleepRq X) < 0 then (True, w)
     else
       let w1 = digitalWrite (pinSleepRq X) HIGH w
       in if sint (pinOnSleep X) < 0 then (True, w1)
          else esperarEstadoPin (pinOnSleep X) HIGH 200 w1)"

text \<open>\<open>XBeeRadio::iniciar\<close>: the result of \<open>despertar()\<close> is dropped.\<close>

definition xbee_iniciar :: "XBeeRadio \<Rightarrow> arduino \<Rightarrow> bool \<times> arduino" where
  "xbee_iniciar X w =
    (let w1 = (if 0 \<le> sint (pinSleepRq X) then pinMode (pinSleepRq X) OUTPUT w else w);
         w2 = (if 0 \<le> sint (pinOnSleep X) then pinMode (pinOnSleep X) INPUT w1 else w1);
         w3 = snd (xbee_despertar X w2)
     in (True, w3))"

text \<open>\<open>XBeeRadio::enviar\<close>.\<close>

definition xbee_enviar :: "stream_env \<Rightarrow> u8 list \<Rightarrow> nat \<Rightarrow> stream_call list \<Rightarrow> bool \<times> stream_call list" where
  "xbee_enviar S buffer longitud h =
    (let h1 = h @ [StreamWrite buffer longitud];
         bytesEscritos = st_write_ans S h1;
         h2 = h1 @ [StreamFlush]
     in (bytesEscritos = longitud, h2))"

text \<open>\<open>XBeeRadio::hayDatosDisponibles\<close> and \<open>XBeeRadio::leer\<close>.\<close>

definition xbee_hayDatosDisponibles :: "stream_env \<Rightarrow> stream_call list \<Rightarrow> int \<times> stream_call list" where
  "xbee_hayDatosDisponibles S h = (let h1 = h @ [StreamAvailable] in (st_available_ans S h1, h1))"

definition xbee_leer :: "stream_env \<Rightarrow> buf \<Rightarrow> nat \<Rightarrow> stream_call list \<Rightarrow> nat \<times> buf \<times> stream_call list" where
  "xbee_leer S buffer maxLongitud h =
    (if maxLongitud = 0 then (0, buffer, h)
     else
       let h1 = h @ [StreamAvailable];
           bytesDisponibles = st_available_ans S h1
       in if bytesDisponibles > 0
          then
            let bytesALeer = min (nat bytesDisponibles) maxLongitud;
                h2 = h1 @ [StreamReadBytes bytesALeer];
                bytes = st_readBytes_ans S h2
            in (length bytes, store buffer bytes, h2)
          else (0, buffer, h1))"

section \<open>RadioInterface.h\<close>

text \<open>
  \<open>leer\<close> is pure virtual: \<open>leerComoString\<close> takes the driver's \<open>leer\<close> as a parameter.
  \<open>buffer\<close> is the local array of 256 bytes, with whatever the stack holds. A write
  outside the array is undefined behaviour in C++ and is a fault of the model. The
  \<open>String\<close> constructor copies the bytes before the first zero byte.
\<close>

datatype fault = StackBufferOverrun

definition String_of_cstr :: "buf \<Rightarrow> u8 list" where
  "String_of_cstr buffer = takeWhile (\<lambda>b. b \<noteq> 0) (map buffer [0..<256])"

definition leerComoString ::
  "(buf \<Rightarrow> nat \<Rightarrow> 'w \<Rightarrow> nat \<times> buf \<times> 'w) \<Rightarrow> buf \<Rightarrow> 'w \<Rightarrow> fault + (u8 list \<times> 'w)" where
  "leerComoString leer buffer w =
    (let (longitud, buffer1, w1) = leer buffer 255 w
     in if longitud < 256
        then Inr (String_of_cstr (buffer1(longitud := 0)), w1)
        else Inl StackBufferOverrun)"

section \<open>Example providers\<close>

text \<open>
  Concrete providers, used where a property is evaluated at an explicit input. A byte
  channel that holds the received bytes \<open>rx\<close> in order: \<open>readBytes\<close> takes bytes from the
  front, \<open>available\<close> is the number of bytes left, \<open>write\<close> accepts every byte.
\<close>

fun st_pending :: "u8 list \<Rightarrow> stream_call list \<Rightarrow> u8 list" where
  "st_pending rx [] = rx"
| "st_pending rx (StreamReadBytes n # cs) = st_pending (drop n rx) cs"
| "st_pending rx (c # cs) = st_pending rx cs"

definition stream_fifo :: "u8 list \<Rightarrow> stream_env" where
  "stream_fifo rx =
    \<lparr> st_write_ans = (\<lambda>h. case rev h of StreamWrite bytes n # before \<Rightarrow> n | _ \<Rightarrow> 0),
      st_available_ans = (\<lambda>h. int (length (st_pending rx h))),
      st_readBytes_ans = (\<lambda>h. case rev h of
                                 StreamReadBytes n # before \<Rightarrow> take n (st_pending rx (rev before))
                               | _ \<Rightarrow> []) \<rparr>"

text \<open>
  An RF24 chip that is detected, has nothing received, and gets no acknowledgement for
  what it sends.
\<close>

definition rf24_idle :: rf24_env where
  "rf24_idle =
    \<lparr> rf_begin_ans = (\<lambda>h. True),
      rf_write_ans = (\<lambda>h. False),
      rf_available_ans = (\<lambda>h. False),
      rf_payloadSize_ans = (\<lambda>h. 0),
      rf_read_ans = (\<lambda>h. []) \<rparr>"

text \<open>
  A configuration with the write address TX001, the read address RX001 and channel
  76; the data rate and the power level are the parameters.
\<close>

definition nrf_example :: "u16 \<Rightarrow> i8 \<Rightarrow> NrfConfig" where
  "nrf_example rate pa =
    \<lparr> cePin = 9, csnPin = 10,
      writeAddress = [0x54, 0x58, 0x30, 0x30, 0x31],
      readAddress = [0x52, 0x58, 0x30, 0x30, 0x31],
      channel = 76, dataRate = rate, paLevel = pa \<rparr>"

text \<open>
  An XBee driver on the given pins, and a board that has just booted whose input pins
  read \<open>HIGH\<close> until \<open>fall_ms\<close> milliseconds have passed and \<open>LOW\<close> from then on.
\<close>

definition xbee_example :: "i8 \<Rightarrow> i8 \<Rightarrow> XBeeRadio" where
  "xbee_example rq on = \<lparr> baudios = 9600, pinSleepRq = rq, pinOnSleep = on \<rparr>"

definition xbee_board :: "nat \<Rightarrow> arduino" where
  "xbee_board fall_ms =
    \<lparr> now_ms = 0, pin_in = (\<lambda>pin t. if t < fall_ms then 1 else 0), io_log = [] \<rparr>"



section \<open>Properties\<close>

declare lora_leer_loop.simps [simp del]
declare esperarEstadoPin_loop.simps [simp del]

subsection \<open>The count returned by \<open>leer\<close>\<close>

lemma lora_leer_loop_le:
  "bytesLeidos \<le> maxLongitud \<Longrightarrow>
   fst (lora_leer_loop L buffer maxLongitud bytesLeidos h) \<le> maxLongitud"
proof (induction "maxLongitud - bytesLeidos" arbitrary: buffer bytesLeidos h)
  case 0
  then show ?case
    by (subst lora_leer_loop.simps) (simp add: Let_def)
next
  case (Suc d)
  then have "fst (lora_leer_loop L buffer' maxLongitud (bytesLeidos + 1) h') \<le> maxLongitud"
    for buffer' h'
    by simp
  then show ?case
    using Suc.prems by (subst lora_leer_loop.simps) (simp add: Let_def)
qed

lemma lora_leer_le: "fst (lora_leer L buffer maxLongitud h) \<le> maxLongitud"
  by (simp add: lora_leer_def lora_leer_loop_le)

lemma nrf_leer_le: "fst (nrf_leer R buffer maxLongitud h) \<le> maxLongitud"
  by (simp add: nrf_leer_def Let_def)

lemma xbee_leer_le:
  assumes "\<And>h n. length (st_readBytes_ans S (h @ [StreamReadBytes n])) \<le> n"
  shows "fst (xbee_leer S buffer maxLongitud h) \<le> maxLongitud"
proof (cases "maxLongitud = 0 \<or> \<not> 0 < st_available_ans S (h @ [StreamAvailable])")
  case True
  then show ?thesis by (auto simp add: xbee_leer_def Let_def)
next
  case False
  let ?n = "min (nat (st_available_ans S (h @ [StreamAvailable]))) maxLongitud"
  have "length (st_readBytes_ans S ((h @ [StreamAvailable]) @ [StreamReadBytes ?n])) \<le> ?n"
    by (rule assms)
  then show ?thesis
    using False by (simp add: xbee_leer_def Let_def)
qed

lemma stream_fifo_drain:
  "length (st_readBytes_ans (stream_fifo rx) (h @ [StreamReadBytes n])) \<le> n"
  by (simp add: stream_fifo_def)

text \<open>
  C1. For each of the three drivers and every capacity \<open>maxLongitud\<close>, the count \<open>r\<close>
  that \<open>leer(buffer, maxLongitud)\<close> returns satisfies \<open>0 \<le> r \<le> maxLongitud\<close>. The count
  is a \<open>size_t\<close>, a natural number, so \<open>0 \<le> r\<close> holds by its type. For LoraRadio and
  NrfRadio the bound holds for every provider; for XBeeRadio, whose result is the count
  of \<open>readBytes\<close>, it holds when \<open>readBytes\<close> never delivers more bytes than it was asked
  for.
\<close>

theorem leer_result_bounded:
  "fst (lora_leer L buffer maxLongitud hl) \<le> maxLongitud
   \<and> fst (nrf_leer R buffer maxLongitud hr) \<le> maxLongitud
   \<and> ((\<forall>h n. length (st_readBytes_ans S (h @ [StreamReadBytes n])) \<le> n)
        \<longrightarrow> fst (xbee_leer S buffer maxLongitud hs) \<le> maxLongitud)"
  using lora_leer_le nrf_leer_le xbee_leer_le by blast

theorem leer_result_bounded_witness:
  "(\<forall>h n. length (st_readBytes_ans (stream_fifo [1, 2, 3, 4, 5]) (h @ [StreamReadBytes n])) \<le> n)
   \<and> fst (xbee_leer (stream_fifo [1, 2, 3, 4, 5]) (\<lambda>i. 0) 2 []) = 2
   \<and> fst (xbee_leer (stream_fifo [1, 2, 3, 4, 5]) (\<lambda>i. 0) 2 []) \<le> 2"
proof -
  have drain: "\<forall>h n. length (st_readBytes_ans (stream_fifo [1, 2, 3, 4, 5]) (h @ [StreamReadBytes n])) \<le> n"
    by (simp add: stream_fifo_drain)
  have val: "fst (xbee_leer (stream_fifo [1, 2, 3, 4, 5]) (\<lambda>i. 0) 2 []) = 2"
    by (simp add: xbee_leer_def stream_fifo_def Let_def)
  from leer_result_bounded [of _ _ 2 _ _ _ "stream_fifo [1, 2, 3, 4, 5]" "[]"] drain
  have "fst (xbee_leer (stream_fifo [1, 2, 3, 4, 5]) (\<lambda>i. 0) 2 []) \<le> 2"
    by blast
  with drain val show ?thesis by blast
qed

text \<open>
  C10. For NrfRadio, when the provider's dynamic payload size is 0, \<open>leer\<close> returns 0,
  leaves the caller's buffer as it was and makes no \<open>read\<close> call, for every
  \<open>maxLongitud\<close>, 0 included.
\<close>

theorem nrf_leer_no_packet:
  "rf_payloadSize_ans R (h @ [GetDynamicPayloadSize]) = 0 \<Longrightarrow>
   nrf_leer R buffer maxLongitud h = (0, buffer, h @ [GetDynamicPayloadSize])"
  by (simp add: nrf_leer_def Let_def)

theorem nrf_leer_no_packet_witness:
  "rf_payloadSize_ans rf24_idle ([] @ [GetDynamicPayloadSize]) = 0
   \<and> nrf_leer rf24_idle (\<lambda>i. 7) 0 [] = (0, (\<lambda>i. 7), [GetDynamicPayloadSize])
   \<and> nrf_leer rf24_idle (\<lambda>i. 7) 32 [] = (0, (\<lambda>i. 7), [GetDynamicPayloadSize])"
proof -
  have idle: "rf_payloadSize_ans rf24_idle ([] @ [GetDynamicPayloadSize]) = 0"
    by (simp add: rf24_idle_def)
  show ?thesis
    using idle nrf_leer_no_packet [OF idle, of "\<lambda>i. 7" 0]
      nrf_leer_no_packet [OF idle, of "\<lambda>i. 7" 32]
    by simp
qed

subsection \<open>Sending\<close>

text \<open>
  C7. For XBeeRadio, \<open>enviar(buffer, n)\<close> makes exactly the calls \<open>write(buffer, n)\<close> and
  then \<open>flush()\<close>, and returns true exactly when \<open>write\<close> answered \<open>n\<close>, the number of
  bytes it accepted.
\<close>

theorem xbee_enviar_write_flush:
  "snd (xbee_enviar S buffer longitud h) = h @ [StreamWrite buffer longitud, StreamFlush]
   \<and> fst (xbee_enviar S buffer longitud h)
       = (st_write_ans S (h @ [StreamWrite buffer longitud]) = longitud)"
  by (simp add: xbee_enviar_def Let_def)

lemma rf_listening_append:
  "rf_listening m (h @ cs) = rf_listening (rf_listening m h) cs"
  by (induction m h rule: rf_listening.induct) simp_all

lemma nrf_enviar_long:
  "snd (nrf_enviar R buffer 300 []) = [StopListening, RfWrite buffer 44, StartListening]"
  by (simp add: nrf_enviar_def Let_def)

text \<open>
  C2. For NrfRadio, every call to \<open>enviar\<close> makes exactly the calls stop-listening,
  acknowledged write (with the length narrowed to the \<open>uint8_t\<close> the provider takes),
  start-listening, in that order, returns the answer of the write, and leaves the
  transport in listening mode, whatever that answer was and whatever the mode and the
  history before the call.
\<close>

theorem nrf_enviar_resumes_listening:
  "snd (nrf_enviar R buffer longitud h)
     = h @ [StopListening, RfWrite buffer (word_of_nat longitud), StartListening]
   \<and> fst (nrf_enviar R buffer longitud h)
     = rf_write_ans R (h @ [StopListening, RfWrite buffer (word_of_nat longitud)])
   \<and> rf_listening m (snd (nrf_enviar R buffer longitud h))"
  by (simp add: nrf_enviar_def Let_def rf_listening_append)

subsection \<open>Initialising the NRF24L01\<close>

lemma rate_calls_append: "rate_calls (h @ cs) = rate_calls h @ rate_calls cs"
  by (induction h rule: rate_calls.induct) simp_all

lemma pa_calls_append: "pa_calls (h @ cs) = pa_calls h @ pa_calls cs"
  by (induction h rule: pa_calls.induct) simp_all

text \<open>
  C4. For NrfRadio, \<open>iniciar\<close> returns exactly what the provider's \<open>begin\<close> answered,
  so no data-rate value makes it fail; and when \<open>begin\<close> succeeded and the data-rate
  selector is neither 250 nor 2, the one data rate it gives the provider is 1 Mbps.
\<close>

theorem nrf_iniciar_dataRate_fallback:
  "fst (nrf_iniciar R cfg h) = rf_begin_ans R (h @ [RfBegin])
   \<and> (rf_begin_ans R (h @ [RfBegin]) \<and> dataRate cfg \<noteq> 250 \<and> dataRate cfg \<noteq> 2
        \<longrightarrow> fst (nrf_iniciar R cfg h)
            \<and> rate_calls (snd (nrf_iniciar R cfg h)) = rate_calls h @ [RF24_1MBPS])"
  by (simp add: nrf_iniciar_def Let_def rate_calls_append)

theorem nrf_iniciar_dataRate_fallback_witness:
  "rf_begin_ans rf24_idle ([] @ [RfBegin])
   \<and> dataRate (nrf_example 7 3) \<noteq> 250 \<and> dataRate (nrf_example 7 3) \<noteq> 2
   \<and> fst (nrf_iniciar rf24_idle (nrf_example 7 3) [])
   \<and> rate_calls (snd (nrf_iniciar rf24_idle (nrf_example 7 3) [])) = [RF24_1MBPS]"
proof -
  have pre: "rf_begin_ans rf24_idle ([] @ [RfBegin])
     \<and> dataRate (nrf_example 7 3) \<noteq> 250 \<and> dataRate (nrf_example 7 3) \<noteq> 2"
    by (simp add: rf24_idle_def nrf_example_def)
  then show ?thesis
    using nrf_iniciar_dataRate_fallback [of rf24_idle "nrf_example 7 3" "[]"] by simp
qed

lemma pa_level_received:
  fixes sel :: i8
  shows "(word_of_int (sint sel) :: u8) = sel"
    and "uint sel = sint sel mod 256"
    and "0 \<le> sint sel \<Longrightarrow> uint sel = sint sel"
    and "sint sel < 0 \<Longrightarrow> uint sel = sint sel + 256"
    and "pa_enumerated (uint sel) = pa_enumerated (sint sel)"
proof -
  show "(word_of_int (sint sel) :: u8) = sel"
    by simp
  have "uint (word_of_int (sint sel) :: u8) = sint sel mod 2 ^ LENGTH(8)"
    by (rule uint_word_of_int)
  then show m: "uint sel = sint sel mod 256"
    by simp
  have lo: "- 128 \<le> sint sel" and hi: "sint sel < 128"
    using sint_ge [of sel] sint_lt [of sel] by simp_all
  show pos: "uint sel = sint sel" if "0 \<le> sint sel"
    using that hi by (simp add: m)
  show neg: "uint sel = sint sel + 256" if "sint sel < 0"
  proof -
    have "sint sel mod 256 = (sint sel + 256) mod 256"
      by simp
    also have "\<dots> = sint sel + 256"
      using that lo by (intro mod_pos_pos_trivial) simp_all
    finally show ?thesis
      by (simp only: m)
  qed
  show "pa_enumerated (uint sel) = pa_enumerated (sint sel)"
  proof (cases "0 \<le> sint sel")
    case True
    then show ?thesis by (simp only: pos)
  next
    case False
    then have "uint sel = sint sel + 256" by (simp add: neg)
    then show ?thesis
      using False lo by (simp add: pa_enumerated_def)
  qed
qed

text \<open>
  C3, as stated, fails: with the power-level selector 7, outside 0..3, \<open>iniciar\<close>
  succeeds and the provider is given the level 7.
\<close>

theorem nrf_paLevel_unchecked_counterexample:
  "\<not> pa_enumerated (sint (paLevel (nrf_example 1 7)))
   \<and> fst (nrf_iniciar rf24_idle (nrf_example 1 7) [])
   \<and> pa_calls (snd (nrf_iniciar rf24_idle (nrf_example 1 7) [])) = [7]
   \<and> \<not> pa_enumerated (uint (7 :: u8))"
  by (simp add: nrf_iniciar_def nrf_example_def rf24_idle_def pa_enumerated_def Let_def)

text \<open>
  C3, amended. For NrfRadio, \<open>iniciar\<close> applies no check and no default to the
  power-level selector: whenever the provider's \<open>begin\<close> succeeds, it returns true and
  the one power level it gives the provider is the selector's signed value, cast to
  the provider's enumeration type and taken modulo 256 by the provider's unsigned
  8-bit parameter. A selector from 0 to 127 arrives as itself, a negative selector
  \<open>v\<close> as \<open>v + 256\<close>; the level that arrives is one of 0..3 exactly when the selector
  is, so a selector outside the enumeration arrives as a level outside it.
\<close>

theorem nrf_iniciar_paLevel_cast:
  "rf_begin_ans R (h @ [RfBegin]) \<Longrightarrow>
   fst (nrf_iniciar R cfg h)
   \<and> (\<exists>level. pa_calls (snd (nrf_iniciar R cfg h)) = pa_calls h @ [level]
        \<and> uint level = sint (paLevel cfg) mod 256
        \<and> (0 \<le> sint (paLevel cfg) \<longrightarrow> uint level = sint (paLevel cfg))
        \<and> (sint (paLevel cfg) < 0 \<longrightarrow> uint level = sint (paLevel cfg) + 256)
        \<and> pa_enumerated (uint level) = pa_enumerated (sint (paLevel cfg)))"
proof -
  assume ok: "rf_begin_ans R (h @ [RfBegin])"
  have calls: "pa_calls (snd (nrf_iniciar R cfg h)) = pa_calls h @ [paLevel cfg]"
    using ok by (simp add: nrf_iniciar_def Let_def pa_calls_append)
  moreover have "fst (nrf_iniciar R cfg h)"
    using ok by (simp add: nrf_iniciar_def Let_def)
  ultimately show ?thesis
    using pa_level_received(2-5) [of "paLevel cfg"] by blast
qed

theorem nrf_iniciar_paLevel_cast_witness:
  "rf_begin_ans rf24_idle ([] @ [RfBegin])
   \<and> fst (nrf_iniciar rf24_idle (nrf_example 1 (- 1)) [])
   \<and> pa_calls (snd (nrf_iniciar rf24_idle (nrf_example 1 (- 1)) [])) = [255]
   \<and> sint (paLevel (nrf_example 1 (- 1))) = - 1
   \<and> \<not> pa_enumerated (uint (255 :: u8))
   \<and> pa_calls (snd (nrf_iniciar rf24_idle (nrf_example 1 2) [])) = [2]"
proof -
  have pre: "rf_begin_ans rf24_idle ([] @ [RfBegin])"
    by (simp add: rf24_idle_def)
  have sel: "sint (paLevel (nrf_example 1 (- 1))) = - 1" "sint (paLevel (nrf_example 1 2)) = 2"
    by (simp_all add: nrf_example_def)
  obtain a :: u8 where a: "pa_calls (snd (nrf_iniciar rf24_idle (nrf_example 1 (- 1)) [])) = [a]"
      "uint a = 255"
    using nrf_iniciar_paLevel_cast [OF pre, of "nrf_example 1 (- 1)"] sel by auto
  obtain b :: u8 where b: "pa_calls (snd (nrf_iniciar rf24_idle (nrf_example 1 2) [])) = [b]"
      "uint b = 2"
    using nrf_iniciar_paLevel_cast [OF pre, of "nrf_example 1 2"] sel by auto
  have "a = 255" "b = 2"
    using a(2) b(2) by (simp_all add: word_uint_eq_iff)
  moreover have "fst (nrf_iniciar rf24_idle (nrf_example 1 (- 1)) [])"
    using nrf_iniciar_paLevel_cast [OF pre, of "nrf_example 1 (- 1)"] by blast
  ultimately show ?thesis
    using pre sel a(1) b(1) by (simp add: pa_enumerated_def)
qed

subsection \<open>The sleep and wake handshake of the XBee\<close>

lemma elapsed_word:
  fixes timeout_ms :: u16
  assumes "k \<le> unat timeout_ms"
  shows "((word_of_nat (t0 + k) :: u32) - word_of_nat t0 < ucast timeout_ms) = (k < unat timeout_ms)"
proof -
  have t: "unat timeout_ms < 2 ^ 16"
    using unsigned_less [of timeout_ms, where ?'a = nat] by simp
  have up: "unat (ucast timeout_ms :: u32) = unat timeout_ms"
    by (simp add: unsigned_ucast_eq take_bit_nat_eq_self_iff t [simplified] order_less_trans [OF t])
  have "k < 2 ^ 32" using assms t by simp
  then have "unat (word_of_nat k :: u32) = k"
    by (simp add: unat_of_nat)
  moreover have "(word_of_nat (t0 + k) :: u32) - word_of_nat t0 = word_of_nat k"
    by simp
  ultimately show ?thesis
    by (simp add: word_less_nat_alt up)
qed

lemma esperar_loop_spec:
  fixes timeout_ms :: u16
  assumes "now_ms w = t0 + k" and "k \<le> unat timeout_ms"
  shows "fst (esperarEstadoPin_loop pin d timeout_ms (word_of_nat t0) w)
           = (\<exists>j. k \<le> j \<and> j < unat timeout_ms \<and> pin_in w pin (t0 + j) = uint d)
         \<and> io_log (snd (esperarEstadoPin_loop pin d timeout_ms (word_of_nat t0) w)) = io_log w"
  using assms
proof (induction "unat timeout_ms - k" arbitrary: k w)
  case 0
  then have "k = unat timeout_ms" by simp
  then have stop: "\<not> millis w - word_of_nat t0 < ucast timeout_ms"
    using elapsed_word [of k timeout_ms t0] "0.prems" by (simp add: millis_def)
  show ?case
    using stop \<open>k = unat timeout_ms\<close> by (subst (1 2) esperarEstadoPin_loop.simps) auto
next
  case (Suc n)
  then have lt: "k < unat timeout_ms" by simp
  then have go: "millis w - word_of_nat t0 < ucast timeout_ms"
    using elapsed_word [of k timeout_ms t0] Suc.prems by (simp add: millis_def)
  show ?case
  proof (cases "pin_in w pin (t0 + k) = uint d")
    case True
    then have "digitalRead pin w = uint d"
      using Suc.prems by (simp add: digitalRead_def)
    then show ?thesis
      using go lt True by (subst (1 2) esperarEstadoPin_loop.simps) auto
  next
    case False
    then have rd: "digitalRead pin w \<noteq> uint d"
      using Suc.prems by (simp add: digitalRead_def)
    let ?w = "delay 1 w"
    have "n = unat timeout_ms - Suc k" using Suc.hyps(2) by simp
    moreover have "now_ms ?w = t0 + Suc k" using Suc.prems by (simp add: delay_def)
    moreover have "Suc k \<le> unat timeout_ms" using lt by simp
    ultimately have IH:
      "fst (esperarEstadoPin_loop pin d timeout_ms (word_of_nat t0) ?w)
           = (\<exists>j. Suc k \<le> j \<and> j < unat timeout_ms \<and> pin_in ?w pin (t0 + j) = uint d)
       \<and> io_log (snd (esperarEstadoPin_loop pin d timeout_ms (word_of_nat t0) ?w)) = io_log ?w"
      by (rule Suc.hyps(1))
    have same: "pin_in ?w = pin_in w" "io_log ?w = io_log w"
      by (simp_all add: delay_def)
    have "(\<exists>j. k \<le> j \<and> j < unat timeout_ms \<and> pin_in w pin (t0 + j) = uint d)
          = (\<exists>j. Suc k \<le> j \<and> j < unat timeout_ms \<and> pin_in w pin (t0 + j) = uint d)"
      using False by (metis Suc_leI le_neq_implies_less Suc_leD)
    then show ?thesis
      using go rd IH same by (subst (1 2) esperarEstadoPin_loop.simps) simp
  qed
qed

lemma esperarEstadoPin_spec:
  "fst (esperarEstadoPin pin d timeout_ms w)
     = (\<exists>j<unat timeout_ms. pin_in w pin (now_ms w + j) = uint d)
   \<and> io_log (snd (esperarEstadoPin pin d timeout_ms w)) = io_log w"
  using esperar_loop_spec [of w "now_ms w" 0 timeout_ms pin d]
  by (simp add: esperarEstadoPin_def millis_def)


lemma xbee_dormir_verified:
  assumes "0 \<le> sint (pinSleepRq X)" and "0 \<le> sint (pinOnSleep X)"
  shows "fst (xbee_dormir X w) = (\<exists>j<200. pin_in w (pinOnSleep X) (now_ms w + j) = uint LOW)
         \<and> io_log (snd (xbee_dormir X w)) = io_log w @ [DigitalWrite (pinSleepRq X) LOW]"
  using assms esperarEstadoPin_spec [of "pinOnSleep X" LOW 200 "digitalWrite (pinSleepRq X) LOW w"]
  by (simp add: xbee_dormir_def Let_def digitalWrite_def)

lemma xbee_despertar_verified:
  assumes "0 \<le> sint (pinSleepRq X)" and "0 \<le> sint (pinOnSleep X)"
  shows "fst (xbee_despertar X w) = (\<exists>j<200. pin_in w (pinOnSleep X) (now_ms w + j) = uint HIGH)
         \<and> io_log (snd (xbee_despertar X w)) = io_log w @ [DigitalWrite (pinSleepRq X) HIGH]"
  using assms esperarEstadoPin_spec [of "pinOnSleep X" HIGH 200 "digitalWrite (pinSleepRq X) HIGH w"]
  by (simp add: xbee_despertar_def Let_def digitalWrite_def)

text \<open>
  C5. For XBeeRadio, \<open>dormir\<close> and \<open>despertar\<close> follow the three pin configurations.
  With no sleep-request pin (a negative identifier, -1 included) both return true and
  leave the board untouched. With a sleep-request pin and no confirmation pin both
  write the request pin (\<open>LOW\<close> to sleep, \<open>HIGH\<close> to wake), do nothing else and return
  true. With both pins both write the request pin and return true exactly when the
  confirmation pin shows the expected level (\<open>LOW\<close> asleep, \<open>HIGH\<close> awake) at one of
  the 200 millisecond ticks that follow the write, false otherwise.
\<close>

theorem xbee_sleep_wake_pin_cases:
  "(sint (pinSleepRq X) < 0 \<longrightarrow>
      xbee_dormir X w = (True, w) \<and> xbee_despertar X w = (True, w))
   \<and> (0 \<le> sint (pinSleepRq X) \<and> sint (pinOnSleep X) < 0 \<longrightarrow>
      xbee_dormir X w = (True, digitalWrite (pinSleepRq X) LOW w)
      \<and> xbee_despertar X w = (True, digitalWrite (pinSleepRq X) HIGH w))
   \<and> (0 \<le> sint (pinSleepRq X) \<and> 0 \<le> sint (pinOnSleep X) \<longrightarrow>
      io_log (snd (xbee_dormir X w)) = io_log w @ [DigitalWrite (pinSleepRq X) LOW]
      \<and> fst (xbee_dormir X w) = (\<exists>j<200. pin_in w (pinOnSleep X) (now_ms w + j) = uint LOW)
      \<and> io_log (snd (xbee_despertar X w)) = io_log w @ [DigitalWrite (pinSleepRq X) HIGH]
      \<and> fst (xbee_despertar X w) = (\<exists>j<200. pin_in w (pinOnSleep X) (now_ms w + j) = uint HIGH))"
proof (intro conjI impI)
  assume "sint (pinSleepRq X) < 0"
  then show "xbee_dormir X w = (True, w)" "xbee_despertar X w = (True, w)"
    by (simp_all add: xbee_dormir_def xbee_despertar_def)
next
  assume "0 \<le> sint (pinSleepRq X) \<and> sint (pinOnSleep X) < 0"
  then show "xbee_dormir X w = (True, digitalWrite (pinSleepRq X) LOW w)"
    "xbee_despertar X w = (True, digitalWrite (pinSleepRq X) HIGH w)"
    by (simp_all add: xbee_dormir_def xbee_despertar_def Let_def)
next
  assume both: "0 \<le> sint (pinSleepRq X) \<and> 0 \<le> sint (pinOnSleep X)"
  then show "io_log (snd (xbee_dormir X w)) = io_log w @ [DigitalWrite (pinSleepRq X) LOW]"
    "fst (xbee_dormir X w) = (\<exists>j<200. pin_in w (pinOnSleep X) (now_ms w + j) = uint LOW)"
    using xbee_dormir_verified [of X w] by simp_all
  from both show "io_log (snd (xbee_despertar X w)) = io_log w @ [DigitalWrite (pinSleepRq X) HIGH]"
    "fst (xbee_despertar X w) = (\<exists>j<200. pin_in w (pinOnSleep X) (now_ms w + j) = uint HIGH)"
    using xbee_despertar_verified [of X w] by simp_all
qed

theorem xbee_sleep_wake_pin_cases_witness:
  "sint (pinSleepRq (xbee_example (- 1) (- 1))) < 0
   \<and> xbee_dormir (xbee_example (- 1) (- 1)) (xbee_board 1000) = (True, xbee_board 1000)
   \<and> xbee_despertar (xbee_example (- 1) (- 1)) (xbee_board 1000) = (True, xbee_board 1000)
   \<and> 0 \<le> sint (pinSleepRq (xbee_example 4 (- 1))) \<and> sint (pinOnSleep (xbee_example 4 (- 1))) < 0
   \<and> xbee_dormir (xbee_example 4 (- 1)) (xbee_board 1000)
       = (True, (xbee_board 1000)\<lparr>io_log := [DigitalWrite 4 0]\<rparr>)
   \<and> xbee_despertar (xbee_example 4 (- 1)) (xbee_board 1000)
       = (True, (xbee_board 1000)\<lparr>io_log := [DigitalWrite 4 1]\<rparr>)
   \<and> 0 \<le> sint (pinSleepRq (xbee_example 4 5)) \<and> 0 \<le> sint (pinOnSleep (xbee_example 4 5))
   \<and> fst (xbee_dormir (xbee_example 4 5) (xbee_board 1000)) = False
   \<and> fst (xbee_dormir (xbee_example 4 5) (xbee_board 50)) = True
   \<and> fst (xbee_despertar (xbee_example 4 5) (xbee_board 50)) = True
   \<and> fst (xbee_despertar (xbee_example 4 5) (xbee_board 0)) = False
   \<and> io_log (snd (xbee_dormir (xbee_example 4 5) (xbee_board 1000))) = [DigitalWrite 4 0]"
proof -
  have none: "sint (pinSleepRq (xbee_example (- 1) (- 1))) < 0"
    by (simp add: xbee_example_def)
  have rq: "0 \<le> sint (pinSleepRq (xbee_example 4 (- 1))) \<and> sint (pinOnSleep (xbee_example 4 (- 1))) < 0"
    by (simp add: xbee_example_def)
  have both: "0 \<le> sint (pinSleepRq (xbee_example 4 5)) \<and> 0 \<le> sint (pinOnSleep (xbee_example 4 5))"
    by (simp add: xbee_example_def)
  have late: "\<not> (\<exists>j<200. pin_in (xbee_board 1000) p (now_ms (xbee_board 1000) + j) = uint LOW)" for p
    by (simp add: xbee_board_def LOW_def)
  have soon: "\<exists>j<200. pin_in (xbee_board 50) p (now_ms (xbee_board 50) + j) = uint LOW" for p
    by (rule exI [of _ 50]) (simp add: xbee_board_def LOW_def)
  have up: "\<exists>j<200. pin_in (xbee_board 50) p (now_ms (xbee_board 50) + j) = uint HIGH" for p
    by (rule exI [of _ 0]) (simp add: xbee_board_def HIGH_def)
  have down: "\<not> (\<exists>j<200. pin_in (xbee_board 0) p (now_ms (xbee_board 0) + j) = uint HIGH)" for p
    by (simp add: xbee_board_def HIGH_def)
  have pins: "pinSleepRq (xbee_example 4 (- 1)) = 4" "pinSleepRq (xbee_example 4 5) = 4"
    by (simp_all add: xbee_example_def)
  show ?thesis
    using none rq both late soon up down
      xbee_sleep_wake_pin_cases [of "xbee_example (- 1) (- 1)" "xbee_board 1000"]
      xbee_sleep_wake_pin_cases [of "xbee_example 4 (- 1)" "xbee_board 1000"]
      xbee_sleep_wake_pin_cases [of "xbee_example 4 5" "xbee_board 1000"]
      xbee_sleep_wake_pin_cases [of "xbee_example 4 5" "xbee_board 50"]
      xbee_sleep_wake_pin_cases [of "xbee_example 4 5" "xbee_board 0"]
    by (simp add: pins digitalWrite_def LOW_def HIGH_def xbee_board_def)
qed

text \<open>
  C9. XBeeRadio's \<open>iniciar\<close> returns true for every configuration and every board. In
  particular, when both pins are configured and the confirmation pin never shows
  \<open>HIGH\<close> within the timeout, the \<open>despertar\<close> call that \<open>iniciar\<close> makes returns false,
  and \<open>iniciar\<close> still returns true.
\<close>

theorem xbee_iniciar_always_true:
  "fst (xbee_iniciar X w)
   \<and> (0 \<le> sint (pinSleepRq X) \<and> 0 \<le> sint (pinOnSleep X)
       \<and> \<not> (\<exists>j<200. pin_in w (pinOnSleep X) (now_ms w + j) = uint HIGH)
      \<longrightarrow> \<not> fst (xbee_despertar X (pinMode (pinOnSleep X) INPUT (pinMode (pinSleepRq X) OUTPUT w)))
          \<and> snd (xbee_iniciar X w)
              = snd (xbee_despertar X (pinMode (pinOnSleep X) INPUT (pinMode (pinSleepRq X) OUTPUT w)))
          \<and> fst (xbee_iniciar X w))"
proof (intro conjI impI)
  show "fst (xbee_iniciar X w)" "fst (xbee_iniciar X w)"
    by (simp_all add: xbee_iniciar_def Let_def)
next
  let ?w2 = "pinMode (pinOnSleep X) INPUT (pinMode (pinSleepRq X) OUTPUT w)"
  assume a: "0 \<le> sint (pinSleepRq X) \<and> 0 \<le> sint (pinOnSleep X)
       \<and> \<not> (\<exists>j<200. pin_in w (pinOnSleep X) (now_ms w + j) = uint HIGH)"
  have "pin_in ?w2 = pin_in w" "now_ms ?w2 = now_ms w"
    by (simp_all add: pinMode_def)
  then show "\<not> fst (xbee_despertar X ?w2)"
    using a xbee_despertar_verified [of X ?w2] by simp
  show "snd (xbee_iniciar X w) = snd (xbee_despertar X ?w2)"
    using a by (simp add: xbee_iniciar_def Let_def)
qed

theorem xbee_iniciar_always_true_witness:
  "0 \<le> sint (pinSleepRq (xbee_example 4 5)) \<and> 0 \<le> sint (pinOnSleep (xbee_example 4 5))
   \<and> \<not> (\<exists>j<200. pin_in (xbee_board 0) (pinOnSleep (xbee_example 4 5)) (now_ms (xbee_board 0) + j) = uint HIGH)
   \<and> \<not> fst (xbee_despertar (xbee_example 4 5) (pinMode 5 INPUT (pinMode 4 OUTPUT (xbee_board 0))))
   \<and> fst (xbee_iniciar (xbee_example 4 5) (xbee_board 0))"
proof -
  have pre: "0 \<le> sint (pinSleepRq (xbee_example 4 5)) \<and> 0 \<le> sint (pinOnSleep (xbee_example 4 5))
     \<and> \<not> (\<exists>j<200. pin_in (xbee_board 0) (pinOnSleep (xbee_example 4 5)) (now_ms (xbee_board 0) + j) = uint HIGH)"
    by (simp add: xbee_example_def xbee_board_def HIGH_def)
  have pins: "pinSleepRq (xbee_example 4 5) = 4" "pinOnSleep (xbee_example 4 5) = 5"
    by (simp_all add: xbee_example_def)
  show ?thesis
    using pre xbee_iniciar_always_true [of "xbee_example 4 5" "xbee_board 0"]
    by (simp add: pins)
qed

subsection \<open>The decoding facade\<close>

lemma cstr_terminated:
  assumes "r < 256"
  shows "String_of_cstr (buffer(r := 0)) = takeWhile (\<lambda>b. b \<noteq> 0) (map buffer [0..<r])"
proof -
  have "[0..<256] = [0..<r] @ r # [Suc r..<256]"
    using assms by (metis less_imp_add_positive upt_add_eq_append upt_conv_Cons zero_le)
  then have "map (buffer(r := 0)) [0..<256]
      = map buffer [0..<r] @ 0 # map (buffer(r := 0)) [Suc r..<256]"
    by simp
  then show ?thesis
    by (simp add: String_of_cstr_def takeWhile_tail)
qed

lemma length_cstr: "length (takeWhile P (map buffer [0..<r])) \<le> r"
  using length_takeWhile_le [of P "map buffer [0..<r]"] by simp

text \<open>
  C8. \<open>leerComoString\<close> calls \<open>leer\<close> on its 256-byte array with capacity 255 and
  writes the terminator at the index \<open>leer\<close> returned. Whenever that count is at most
  255, the write is inside the array (no fault), and the text is made of the first
  bytes \<open>leer\<close> stored, as the \<open>String\<close> constructor reads them (up to the first zero
  byte), so it has at most 255 bytes. When the payload is longer than 255 bytes and
  \<open>leer\<close> stored its first 255, the text is that of the payload cut to 255 bytes: the
  255 bytes themselves when none of them is zero.
\<close>

theorem leerComoString_terminator_in_bounds:
  assumes "leer buffer 255 w = (r, buffer1, w1)" and "r \<le> 255"
  shows "leerComoString leer buffer w
           = Inr (takeWhile (\<lambda>b. b \<noteq> 0) (map buffer1 [0..<r]), w1)
         \<and> length (takeWhile (\<lambda>b. b \<noteq> 0) (map buffer1 [0..<r])) \<le> 255
         \<and> (\<forall>payload. 255 < length payload \<and> map buffer1 [0..<r] = take 255 payload
              \<longrightarrow> leerComoString leer buffer w
                    = Inr (takeWhile (\<lambda>b. b \<noteq> 0) (take 255 payload), w1)
                  \<and> (0 \<notin> set (take 255 payload)
                       \<longrightarrow> leerComoString leer buffer w = Inr (take 255 payload, w1)))"
proof -
  have lt: "r < 256" using assms(2) by simp
  have main: "leerComoString leer buffer w
           = Inr (takeWhile (\<lambda>b. b \<noteq> 0) (map buffer1 [0..<r]), w1)"
    using assms(1) lt by (simp add: leerComoString_def cstr_terminated)
  have len: "length (takeWhile (\<lambda>b. b \<noteq> 0) (map buffer1 [0..<r])) \<le> 255"
    using length_cstr [of "\<lambda>b. b \<noteq> 0" buffer1 r] assms(2) by simp
  have "takeWhile (\<lambda>b. b \<noteq> 0) xs = xs" if "0 \<notin> set xs" for xs :: "u8 list"
    using that by (simp add: takeWhile_eq_all_conv) metis
  then show ?thesis
    using main len by auto
qed


theorem leerComoString_terminator_in_bounds_witness:
  "xbee_leer (stream_fifo (replicate 300 0x41)) (\<lambda>i. 0) 255 []
     = (255, store (\<lambda>i. 0) (replicate 255 0x41), [StreamAvailable, StreamReadBytes 255])
   \<and> (255 :: nat) \<le> 255
   \<and> 255 < length (replicate 300 (0x41 :: u8))
   \<and> leerComoString (xbee_leer (stream_fifo (replicate 300 0x41))) (\<lambda>i. 0) []
       = Inr (replicate 255 0x41, [StreamAvailable, StreamReadBytes 255])"
proof -
  let ?p = "replicate 300 (0x41 :: u8)"
  have rd: "xbee_leer (stream_fifo ?p) (\<lambda>i. 0) 255 []
     = (255, store (\<lambda>i. 0) (replicate 255 0x41), [StreamAvailable, StreamReadBytes 255])"
    by (simp add: xbee_leer_def stream_fifo_def Let_def)
  have got: "map (store (\<lambda>i. 0) (replicate 255 (0x41 :: u8))) [0..<255] = take 255 ?p"
    by (simp add: store_def list_eq_iff_nth_eq)
  have nz: "0 \<notin> set (take 255 ?p)"
    by simp
  have "leerComoString (xbee_leer (stream_fifo ?p)) (\<lambda>i. 0) []
       = Inr (take 255 ?p, [StreamAvailable, StreamReadBytes 255])"
    using leerComoString_terminator_in_bounds
        [where leer = "xbee_leer (stream_fifo ?p)" and buffer = "\<lambda>i. 0" and w = "[]", OF rd] got nz
    by simp
  then show ?thesis
    using rd by simp
qed

subsection \<open>Truncated reads of a LoRa packet\<close>










end
